theory Spec2Isabelle
  imports Main "HOL-Library.Word" "HOL-Library.Multiset"
begin

unbundle bit_operations_syntax

section \<open>Data model\<close>

text \<open>
  A JavaScript string is a sequence of UTF-16 code units; a Node.js \<open>Buffer\<close> is a
  sequence of bytes.  \<open>str\<close> embeds an ASCII literal of the source.
\<close>

type_synonym code_unit = "16 word"
type_synonym js_string = "code_unit list"
type_synonym byte = "8 word"
type_synonym buffer = "byte list"

definition str :: "string \<Rightarrow> js_string" where
  "str s = map of_char s"

text \<open>
  The JavaScript numbers the routine computes with are IEEE 754 doubles whose value is an
  integer, the two infinities and \<open>NaN\<close>.  \<open>Num n\<close> is the double of value \<open>n\<close>; the
  operations below only build it for an \<open>n\<close> that a double can hold.
\<close>

datatype js_number = NaN | Num int | PosInfinity | NegInfinity

text \<open>
  The double nearest to an integer: below \<open>2 ^ 53\<close> the integer itself; above, the integer
  rounded to 53 significant bits, ties to the even significand; \<open>Infinity\<close> from
  \<open>2 ^ 1024\<close> on after rounding.  \<open>bit_length m\<close> is the number of binary digits of \<open>m\<close>.
\<close>

fun bit_length :: "nat \<Rightarrow> nat" where
  "bit_length n = (if n = 0 then 0 else Suc (bit_length (n div 2)))"

definition round53 :: "nat \<Rightarrow> nat" where
  "round53 m =
     (if m < 2 ^ 53 then m
      else let e = bit_length m - 53; q = m div 2 ^ e; r = m mod 2 ^ e
           in if 2 ^ e < 2 * r \<or> (2 * r = 2 ^ e \<and> odd q) then (q + 1) * 2 ^ e else q * 2 ^ e)"

definition to_double :: "int \<Rightarrow> js_number" where
  "to_double n =
     (let m = round53 (nat \<bar>n\<bar>)
      in if 2 ^ 1024 \<le> m then (if n < 0 then NegInfinity else PosInfinity)
         else Num (if n < 0 then - int m else int m))"

text \<open>Subtraction, \<open>Math.abs\<close> and \<open>>\<close> on these numbers: the exact difference of two
  doubles is rounded to a double; \<open>Infinity - Infinity\<close> is \<open>NaN\<close>; every comparison with
  \<open>NaN\<close> is false.\<close>

fun js_sub :: "js_number \<Rightarrow> js_number \<Rightarrow> js_number" where
  "js_sub (Num x) (Num y) = to_double (x - y)"
| "js_sub (Num x) PosInfinity = NegInfinity"
| "js_sub (Num x) NegInfinity = PosInfinity"
| "js_sub PosInfinity (Num y) = PosInfinity"
| "js_sub PosInfinity NegInfinity = PosInfinity"
| "js_sub NegInfinity (Num y) = NegInfinity"
| "js_sub NegInfinity PosInfinity = NegInfinity"
| "js_sub a b = NaN"

fun js_abs :: "js_number \<Rightarrow> js_number" where
  "js_abs NaN = NaN"
| "js_abs (Num x) = Num \<bar>x\<bar>"
| "js_abs PosInfinity = PosInfinity"
| "js_abs NegInfinity = PosInfinity"

fun js_gt :: "js_number \<Rightarrow> js_number \<Rightarrow> bool" where
  "js_gt (Num x) (Num y) = (y < x)"
| "js_gt (Num x) NegInfinity = True"
| "js_gt PosInfinity (Num y) = True"
| "js_gt PosInfinity NegInfinity = True"
| "js_gt a b = False"

text \<open>The only fault the routine can raise: \<open>crypto.timingSafeEqual\<close> on buffers of
  different byte length (\<open>ERR_CRYPTO_TIMING_SAFE_EQUAL_LENGTH\<close>, a \<open>RangeError\<close>).\<close>

datatype fault = RangeError

section \<open>String operations of the source\<close>

text \<open>\<open>s.split(',')\<close>, for the one-character separator the source uses: the text between
  the separators, empty pieces included; the empty string splits into one empty piece.\<close>

fun split :: "code_unit \<Rightarrow> js_string \<Rightarrow> js_string list" where
  "split sep [] = [[]]"
| "split sep (c # cs) =
     (if c = sep then [] # split sep cs
      else (case split sep cs of
              [] \<Rightarrow> [[c]]
            | p # ps \<Rightarrow> (c # p) # ps))"

text \<open>\<open>s.startsWith(p)\<close>.\<close>

definition startsWith :: "js_string \<Rightarrow> js_string \<Rightarrow> bool" where
  "startsWith s p = (take (length p) s = p)"

text \<open>\<open>Buffer.from(s)\<close> and the implicit conversion in \<open>hmac.update(s)\<close>: the UTF-8
  encoding of the string.  A surrogate pair is one code point of four bytes; a lone
  surrogate is encoded as U+FFFD (\<open>EF BF BD\<close>).\<close>

definition is_high_surrogate :: "code_unit \<Rightarrow> bool" where
  "is_high_surrogate u = (0xD800 \<le> u \<and> u \<le> 0xDBFF)"

definition is_low_surrogate :: "code_unit \<Rightarrow> bool" where
  "is_low_surrogate u = (0xDC00 \<le> u \<and> u \<le> 0xDFFF)"

definition replacement :: buffer where
  "replacement = [0xEF, 0xBF, 0xBD]"

definition utf8_2 :: "code_unit \<Rightarrow> buffer" where
  "utf8_2 u = [0xC0 OR ucast (drop_bit 6 u), 0x80 OR ucast (u AND 0x3F)]"

definition utf8_3 :: "code_unit \<Rightarrow> buffer" where
  "utf8_3 u = [0xE0 OR ucast (drop_bit 12 u),
               0x80 OR ucast (drop_bit 6 u AND 0x3F),
               0x80 OR ucast (u AND 0x3F)]"

definition utf8_4 :: "code_unit \<Rightarrow> code_unit \<Rightarrow> buffer" where
  "utf8_4 h l =
     (let cp = (0x10000 :: 32 word) + push_bit 10 (ucast (h AND 0x3FF)) + ucast (l AND 0x3FF)
      in [0xF0 OR ucast (drop_bit 18 cp),
          0x80 OR ucast (drop_bit 12 cp AND 0x3F),
          0x80 OR ucast (drop_bit 6 cp AND 0x3F),
          0x80 OR ucast (cp AND 0x3F)])"

fun utf8 :: "js_string \<Rightarrow> buffer" where
  "utf8 [] = []"
| "utf8 (u # us) =
     (if u < 0x80 then ucast u # utf8 us
      else if u < 0x800 then utf8_2 u @ utf8 us
      else if is_high_surrogate u then
        (case us of
           [] \<Rightarrow> replacement
         | l # rest \<Rightarrow>
             if is_low_surrogate l then utf8_4 u l @ utf8 rest
             else replacement @ utf8 us)
      else if is_low_surrogate u then replacement @ utf8 us
      else utf8_3 u @ utf8 us)"

section \<open>parseInt(s, 10)\<close>

text \<open>
  ECMAScript \<open>parseInt\<close> with radix 10: leading white space and line terminators are
  skipped, one sign is read, then the longest prefix of decimal digits; no digit at all
  gives \<open>NaN\<close>.  Whatever follows the digits is ignored.  The result is the double
  nearest to the signed integer the digits write (V8 rounds it correctly): an integer
  beyond \<open>2 ^ 53\<close> is rounded, a very long one gives \<open>Infinity\<close>.
\<close>

definition is_white_space :: "code_unit \<Rightarrow> bool" where
  "is_white_space u =
     (u \<in> {0x09, 0x0A, 0x0B, 0x0C, 0x0D, 0x20, 0xA0, 0x1680, 0x2028, 0x2029, 0x202F,
            0x205F, 0x3000, 0xFEFF}
      \<or> (0x2000 \<le> u \<and> u \<le> 0x200A))"

definition is_digit :: "code_unit \<Rightarrow> bool" where
  "is_digit u = (0x30 \<le> u \<and> u \<le> 0x39)"

definition digit_value :: "code_unit \<Rightarrow> int" where
  "digit_value u = uint u - 48"

definition digits_value :: "js_string \<Rightarrow> int" where
  "digits_value z = foldl (\<lambda>acc u. 10 * acc + digit_value u) 0 z"

definition parseInt10 :: "js_string \<Rightarrow> js_number" where
  "parseInt10 input =
     (let s = dropWhile is_white_space input;
          sign = (if s \<noteq> [] \<and> hd s = 0x2D then - 1 else 1);
          s' = (if s \<noteq> [] \<and> (hd s = 0x2B \<or> hd s = 0x2D) then tl s else s);
          z = takeWhile is_digit s'
      in if z = [] then NaN else to_double (sign * digits_value z))"

section \<open>The crypto module\<close>

text \<open>
  \<open>crypto.createHmac('sha256', secret).update(msg)\<close> belongs to the Node.js runtime, not to
  the repository: the verifier takes it as the parameter \<open>hmac\<close>, from the key bytes and
  the message bytes to the 256-bit digest.  \<open>digest('hex')\<close> renders the 32 bytes as 64
  lowercase hexadecimal digits, most significant first.
\<close>

type_synonym digest = "256 word"
type_synonym hmac_fun = "buffer \<Rightarrow> buffer \<Rightarrow> digest"

definition hex_digit :: "nat \<Rightarrow> code_unit" where
  "hex_digit n = (if n < 10 then of_nat (48 + n) else of_nat (87 + n))"

fun hex_of_nat :: "nat \<Rightarrow> nat \<Rightarrow> js_string" where
  "hex_of_nat 0 v = []"
| "hex_of_nat (Suc n) v = hex_of_nat n (v div 16) @ [hex_digit (v mod 16)]"

definition digest_hex :: "digest \<Rightarrow> js_string" where
  "digest_hex d = hex_of_nat 64 (unat d)"

text \<open>\<open>crypto.timingSafeEqual(a, b)\<close>: throws when the byte lengths differ, otherwise
  tells whether the buffers are equal.\<close>

definition timingSafeEqual :: "buffer \<Rightarrow> buffer \<Rightarrow> fault + bool" where
  "timingSafeEqual a b = (if length a \<noteq> length b then Inl RangeError else Inr (a = b))"

section \<open>verifyWebhookSignature\<close>

text \<open>The two fields, as the source extracts them:
  \<open>parts.find(p => p.startsWith('t='))?.slice(2)\<close> and
  \<open>parts.find(p => p.startsWith('v1='))?.slice(3)\<close>, where
  \<open>parts = signature.split(',')\<close>.\<close>

definition timestamp_field :: "js_string \<Rightarrow> js_string option" where
  "timestamp_field signature =
     map_option (drop 2) (find (\<lambda>p. startsWith p (str ''t='')) (split 0x2C signature))"

definition sig_field :: "js_string \<Rightarrow> js_string option" where
  "sig_field signature =
     map_option (drop 3) (find (\<lambda>p. startsWith p (str ''v1='')) (split 0x2C signature))"

text \<open>\<open>Math.abs(now - ts) > toleranceSeconds\<close>, in double arithmetic.  The clock and the
  tolerance are read as integers and enter as the doubles of these values.\<close>

definition outside_window :: "int \<Rightarrow> js_number \<Rightarrow> int \<Rightarrow> bool" where
  "outside_window now ts toleranceSeconds =
     js_gt (js_abs (js_sub (to_double now) ts)) (to_double toleranceSeconds)"

text \<open>
  The routine.  \<open>now\<close> stands for \<open>Math.floor(Date.now() / 1000)\<close>, the clock read as a
  parameter, and \<open>hmac\<close> for the \<open>crypto\<close> module the routine requires.
  \<open>toleranceSeconds\<close> (300 when the caller omits it) is an integer number of seconds.
  \<open>!timestamp || !sig\<close> holds when a field is \<open>undefined\<close> (not found) or the empty string.
  The result is the returned boolean, or the fault thrown.
\<close>

definition verifyWebhookSignature ::
  "hmac_fun \<Rightarrow> int \<Rightarrow> js_string \<Rightarrow> js_string \<Rightarrow> js_string \<Rightarrow> int \<Rightarrow> fault + bool" where
  "verifyWebhookSignature hmac now payload signature secret toleranceSeconds =
     (case timestamp_field signature of
        None \<Rightarrow> Inr False
      | Some timestamp \<Rightarrow>
     (case sig_field signature of
        None \<Rightarrow> Inr False
      | Some sig \<Rightarrow>
          if timestamp = [] \<or> sig = [] then Inr False
          else if outside_window now (parseInt10 timestamp) toleranceSeconds then Inr False
          else timingSafeEqual (utf8 sig)
                 (utf8 (digest_hex (hmac (utf8 secret)
                                         (utf8 (timestamp @ str ''.'' @ payload)))))))"

section \<open>The sender\<close>

text \<open>
  The remote service that signs a delivery is outside the repository; the specification
  describes the header it builds.  The timestamp is written as the decimal text of an
  integer: digits without leading zeros, after a \<open>-\<close> when negative.
\<close>

fun digits :: "nat \<Rightarrow> js_string" where
  "digits n = (if n < 10 then [of_nat (48 + n)] else digits (n div 10) @ [of_nat (48 + n mod 10)])"

definition decimal :: "int \<Rightarrow> js_string" where
  "decimal i = (if i < 0 then 0x2D # digits (nat (- i)) else digits (nat i))"

text \<open>A correctly constructed header for a delivery signed at time \<open>ts\<close>:
  \<open>t=<ts>,v1=<hex digest>\<close>, the digest taken over \<open><ts>.<payload>\<close> under the secret.\<close>

definition signed_header :: "hmac_fun \<Rightarrow> js_string \<Rightarrow> js_string \<Rightarrow> int \<Rightarrow> js_string" where
  "signed_header hmac secret payload ts =
     str ''t='' @ decimal ts @ str '',v1='' @
     digest_hex (hmac (utf8 secret) (utf8 (decimal ts @ str ''.'' @ payload)))"

text \<open>A lowercase hexadecimal digit: \<open>0\<close> to \<open>9\<close>, \<open>a\<close> to \<open>f\<close>.\<close>

definition is_lower_hex :: "code_unit \<Rightarrow> bool" where
  "is_lower_hex u = ((0x30 \<le> u \<and> u \<le> 0x39) \<or> (0x61 \<le> u \<and> u \<le> 0x66))"

section \<open>HMAC-SHA256\<close>

text \<open>
  The function the Node.js runtime computes for \<open>createHmac('sha256', key)\<close>: SHA-256 after
  FIPS 180-4 and HMAC after RFC 2104, on bytes and 32-bit words kept as integers with the
  wrap-around written out.  It instantiates the parameter \<open>hmac\<close> on concrete deliveries.
  The round constants \<open>K256\<close> (the first 32 bits of the fractional parts of the cube roots
  of the first 64 primes) and the initial hash value \<open>H256\<close> (the same of the square roots of
  the first 8 primes) are written in decimal.
\<close>

definition add32 :: "int \<Rightarrow> int \<Rightarrow> int" where
  "add32 a b = (a + b) mod 4294967296"

definition rotr :: "nat \<Rightarrow> int \<Rightarrow> int" where
  "rotr n w = drop_bit n w OR take_bit 32 (push_bit (32 - n) w)"

definition Ch :: "int \<Rightarrow> int \<Rightarrow> int \<Rightarrow> int" where
  "Ch x y z = (x AND y) XOR ((x XOR 0xFFFFFFFF) AND z)"

definition Maj :: "int \<Rightarrow> int \<Rightarrow> int \<Rightarrow> int" where
  "Maj x y z = (x AND y) XOR (x AND z) XOR (y AND z)"

definition Sigma0 :: "int \<Rightarrow> int" where
  "Sigma0 x = rotr 2 x XOR rotr 13 x XOR rotr 22 x"

definition Sigma1 :: "int \<Rightarrow> int" where
  "Sigma1 x = rotr 6 x XOR rotr 11 x XOR rotr 25 x"

definition sigma0 :: "int \<Rightarrow> int" where
  "sigma0 x = rotr 7 x XOR rotr 18 x XOR drop_bit 3 x"

definition sigma1 :: "int \<Rightarrow> int" where
  "sigma1 x = rotr 17 x XOR rotr 19 x XOR drop_bit 10 x"

definition K256 :: "int list" where
  "K256 =
    [1116352408, 1899447441, 3049323471, 3921009573, 961987163, 1508970993,
     2453635748, 2870763221, 3624381080, 310598401, 607225278, 1426881987,
     1925078388, 2162078206, 2614888103, 3248222580, 3835390401, 4022224774,
     264347078, 604807628, 770255983, 1249150122, 1555081692, 1996064986,
     2554220882, 2821834349, 2952996808, 3210313671, 3336571891, 3584528711,
     113926993, 338241895, 666307205, 773529912, 1294757372, 1396182291,
     1695183700, 1986661051, 2177026350, 2456956037, 2730485921, 2820302411,
     3259730800, 3345764771, 3516065817, 3600352804, 4094571909, 275423344,
     430227734, 506948616, 659060556, 883997877, 958139571, 1322822218,
     1537002063, 1747873779, 1955562222, 2024104815, 2227730452, 2361852424,
     2428436474, 2756734187, 3204031479, 3329325298]"

definition H256 :: "int list" where
  "H256 =
    [1779033703, 3144134277, 1013904242, 2773480762, 1359893119, 2600822924,
     528734635, 1541459225]"

text \<open>The message schedule, newest word first: \<open>schedule 48\<close> extends the 16 words of a
  block (reversed) to the 64 words of the rounds.\<close>

fun schedule :: "nat \<Rightarrow> int list \<Rightarrow> int list" where
  "schedule 0 r = r"
| "schedule (Suc n) r =
     schedule n (add32 (add32 (sigma1 (r ! 1)) (r ! 6)) (add32 (sigma0 (r ! 14)) (r ! 15)) # r)"

text \<open>One round on the working variables \<open>[a, b, c, d, e, f, g, h]\<close>, from the two
  temporaries \<open>t1\<close> and \<open>t2\<close>.\<close>

fun step :: "int \<Rightarrow> int \<Rightarrow> int list \<Rightarrow> int list" where
  "step t1 t2 [a, b, c, d, e, f, g, h] = [add32 t1 t2, a, b, c, add32 d t1, e, f, g]"
| "step t1 t2 s = s"

fun sha_round :: "int list \<Rightarrow> int \<times> int \<Rightarrow> int list" where
  "sha_round s (k, w) =
     step (add32 (add32 (add32 (s ! 7) (Sigma1 (s ! 4))) (Ch (s ! 4) (s ! 5) (s ! 6))) (add32 k w))
          (add32 (Sigma0 (s ! 0)) (Maj (s ! 0) (s ! 1) (s ! 2))) s"

definition compress :: "int list \<Rightarrow> int list \<Rightarrow> int list" where
  "compress h block =
     map2 add32 h (foldl sha_round h (zip K256 (rev (schedule 48 (rev block)))))"

text \<open>Bytes to big-endian 32-bit words, words to blocks of 16, and back to bytes.\<close>

fun be_words :: "int list \<Rightarrow> int list" where
  "be_words (a # b # c # d # bs) = (((a * 256 + b) * 256 + c) * 256 + d) # be_words bs"
| "be_words bs = []"

fun blocks :: "nat \<Rightarrow> int list \<Rightarrow> int list list" where
  "blocks 0 ws = []"
| "blocks (Suc n) ws = take 16 ws # blocks n (drop 16 ws)"

definition be_bytes :: "nat \<Rightarrow> int \<Rightarrow> int list" where
  "be_bytes n v = map (\<lambda>i. (v div 256 ^ i) mod 256) (rev [0..<n])"

text \<open>Padding: a byte \<open>0x80\<close>, zeros up to 56 modulo 64, the bit length on 8 bytes.\<close>

definition pad :: "int list \<Rightarrow> int list" where
  "pad m = m @ [0x80] @ replicate ((119 - length m mod 64) mod 64) 0
             @ be_bytes 8 (8 * int (length m))"

definition sha256 :: "int list \<Rightarrow> int list" where
  "sha256 m =
     (let p = pad m
      in concat (map (be_bytes 4) (foldl compress H256 (blocks (length p div 64) (be_words p)))))"

text \<open>HMAC: the key, hashed when longer than a block, is padded with zeros to 64 bytes.\<close>

definition hmac_key :: "int list \<Rightarrow> int list" where
  "hmac_key k =
     (let k' = (if length k > 64 then sha256 k else k) in k' @ replicate (64 - length k') 0)"

definition hmac_sha256_bytes :: "int list \<Rightarrow> int list \<Rightarrow> int list" where
  "hmac_sha256_bytes k m =
     sha256 (map (\<lambda>b. b XOR 0x5c) (hmac_key k)
             @ sha256 (map (\<lambda>b. b XOR 0x36) (hmac_key k) @ m))"

definition hmac_sha256 :: hmac_fun where
  "hmac_sha256 k m =
     word_of_int (foldl (\<lambda>a b. a * 256 + b) 0 (hmac_sha256_bytes (map uint k) (map uint m)))"

section \<open>A concrete delivery\<close>

text \<open>The delivery of the specification's concrete scenario: secret \<open>whsec_test\<close>, payload
  \<open>{"event":"invocation"}\<close>, signed at \<open>1700000000\<close>.\<close>

definition scenario_secret :: js_string where
  \<open>scenario_secret = str ''whsec_test''\<close>

definition scenario_payload :: js_string where
  \<open>scenario_payload = str ''{"event":"invocation"}''\<close>

definition scenario_header :: js_string where
  \<open>scenario_header =
     str ''t=1700000000,v1=909034ad1e37b4d1208f241a46e21394379560ced0e65e0ae9d7108b804bb9b3''\<close>

declare digits.simps [simp del]

declare bit_length.simps [simp del]

section \<open>Splitting\<close>

lemma split_not_Nil: "split sep s \<noteq> []"
  by (induction s) (auto split: list.splits)

lemma split_no_sep: "sep \<notin> set s \<Longrightarrow> split sep s = [s]"
  by (induction s) auto

lemma split_append_sep: "sep \<notin> set a \<Longrightarrow> split sep (a @ sep # b) = a # split sep b"
  by (induction a) auto

lemma split_parts_no_sep: "p \<in> set (split sep s) \<Longrightarrow> sep \<notin> set p"
  by (induction s arbitrary: p) (auto split: if_splits list.splits)



section \<open>UTF-8 of ASCII text\<close>

lemma unat_ucast_ascii: "u < 0x80 \<Longrightarrow> unat (ucast (u :: code_unit) :: byte) = unat u"
  by (simp add: unsigned_ucast_eq word_less_nat_alt take_bit_nat_eq_self)

lemma ucast_ascii_less: "u < 0x80 \<Longrightarrow> (ucast (u :: code_unit) :: byte) < 0x80"
  by (simp add: word_less_nat_alt unat_ucast_ascii)

lemma ucast_ascii_inj: 
  assumes "u < 0x80" "v < 0x80" "(ucast (u :: code_unit) :: byte) = ucast v" shows "u = v"
proof -
  have "unat (ucast u :: byte) = unat (ucast v :: byte)" using assms(3) by simp
  then have "unat u = unat v" using assms(1,2) by (simp add: unat_ucast_ascii)
  then show ?thesis by (simp add: word_unat_eq_iff)
qed

lemma high_or: "(0x80 :: byte) \<le> 0xC0 OR w" "(0x80 :: byte) \<le> 0xE0 OR w" "(0x80 :: byte) \<le> 0xF0 OR w"
proof -
  have "(0x80 :: byte) \<le> 0xC0" by simp
  also have "\<dots> \<le> 0xC0 OR w" by (rule le_word_or2)
  finally show "(0x80 :: byte) \<le> 0xC0 OR w" .
  have "(0x80 :: byte) \<le> 0xE0" by simp
  also have "\<dots> \<le> 0xE0 OR w" by (rule le_word_or2)
  finally show "(0x80 :: byte) \<le> 0xE0 OR w" .
  have "(0x80 :: byte) \<le> 0xF0" by simp
  also have "\<dots> \<le> 0xF0 OR w" by (rule le_word_or2)
  finally show "(0x80 :: byte) \<le> 0xF0 OR w" .
qed

lemma utf8_head_high: "\<not> u < 0x80 \<Longrightarrow> \<exists>b bs. utf8 (u # us) = b # bs \<and> 0x80 \<le> b"
  by (auto simp: utf8_2_def utf8_3_def utf8_4_def replacement_def Let_def high_or split: list.splits)

lemma utf8_ascii: "list_all (\<lambda>u. u < 0x80) s \<Longrightarrow> utf8 s = map ucast s"
  by (induction s) auto

lemma utf8_eq_ascii:
  "list_all (\<lambda>u. u < 0x80) e \<Longrightarrow> utf8 s = utf8 e \<Longrightarrow> s = e"
proof (induction s arbitrary: e)
  case Nil
  then show ?case by (cases e) (auto simp: utf8_ascii)
next
  case (Cons u us)
  show ?case
  proof (cases e)
    case Nil
    with Cons.prems utf8_head_high [of u us] show ?thesis
      by (cases "u < 0x80") auto
  next
    case (Cons x xs)
    with Cons.prems have x: "x < 0x80" and xs: "list_all (\<lambda>u. u < 0x80) xs" by auto
    have eq: "utf8 (u # us) = ucast x # utf8 xs" using Cons.prems(2) Cons x by simp
    show ?thesis
    proof (cases "u < 0x80")
      case True
      with eq have "(ucast u :: byte) = ucast x" and "utf8 us = utf8 xs" by auto
      with True x xs Cons.IH [of xs] Cons show ?thesis by (auto dest: ucast_ascii_inj)
    next
      case False
      from utf8_head_high [OF False, of us] obtain b bs
        where "utf8 (u # us) = b # bs" and "0x80 \<le> b" by blast
      with eq have "0x80 \<le> (ucast x :: byte)" by (simp del: utf8.simps)
      with ucast_ascii_less [OF x] show ?thesis by simp
    qed
  qed
qed

lemma length_utf8_ascii: "list_all (\<lambda>u. u < 0x80) s \<Longrightarrow> length (utf8 s) = length s"
  by (simp add: utf8_ascii)

section \<open>The hexadecimal digest\<close>

lemma length_hex_of_nat: "length (hex_of_nat n v) = n"
  by (induction n arbitrary: v) auto

lemma unat_code_unit_of_nat: "n < 65536 \<Longrightarrow> unat (of_nat n :: code_unit) = n"
  by (simp add: unat_of_nat)

lemma unat_hex_digit: "k < 16 \<Longrightarrow> unat (hex_digit k) = (if k < 10 then 48 + k else 87 + k)"
  unfolding hex_digit_def by (simp only: unat_code_unit_of_nat split: if_split) simp

lemma hex_digit_ascii: "k < 16 \<Longrightarrow> hex_digit k < 0x80"
  by (simp add: word_less_nat_alt unat_hex_digit)

lemma hex_digit_not_comma: "k < 16 \<Longrightarrow> hex_digit k \<noteq> 0x2C"
  by (auto simp: word_unat_eq_iff unat_hex_digit)

lemma hex_digit_inj: "j < 16 \<Longrightarrow> k < 16 \<Longrightarrow> hex_digit j = hex_digit k \<Longrightarrow> j = k"
  by (auto simp: word_unat_eq_iff unat_hex_digit split: if_splits)

lemma hex_digit_lower: "k < 16 \<Longrightarrow> is_lower_hex (hex_digit k)"
  by (auto simp: is_lower_hex_def word_le_nat_alt unat_hex_digit)

lemma hex_of_nat_digits: "u \<in> set (hex_of_nat n v) \<Longrightarrow> \<exists>k<16. u = hex_digit k"
proof (induction n arbitrary: v)
  case 0
  then show ?case by simp
next
  case (Suc n)
  then show ?case
  proof (cases "u \<in> set (hex_of_nat n (v div 16))")
    case True
    then show ?thesis by (rule Suc.IH)
  next
    case False
    with Suc.prems have "u = hex_digit (v mod 16)" by simp
    moreover have "v mod 16 < 16" by simp
    ultimately show ?thesis by blast
  qed
qed

lemma hex_of_nat_inj: "hex_of_nat n v = hex_of_nat n w \<Longrightarrow> v mod 16 ^ n = w mod 16 ^ n"
proof (induction n arbitrary: v w)
  case 0
  then show ?case by simp
next
  case (Suc n)
  from Suc.prems have hi: "hex_of_nat n (v div 16) = hex_of_nat n (w div 16)"
    and lo: "hex_digit (v mod 16) = hex_digit (w mod 16)" by simp_all
  from lo have "v mod 16 = w mod 16" by (rule hex_digit_inj [rotated 2]) simp_all
  moreover from hi have "v div 16 mod 16 ^ n = w div 16 mod 16 ^ n" by (rule Suc.IH)
  ultimately show ?case by (simp add: mod_mult2_eq)
qed

lemma length_digest_hex: "length (digest_hex d) = 64"
  by (simp add: digest_hex_def length_hex_of_nat)

lemma digest_hex_ascii: "list_all (\<lambda>u. u < 0x80) (digest_hex d)"
  by (auto simp: digest_hex_def list_all_iff dest!: hex_of_nat_digits intro: hex_digit_ascii)

lemma digest_hex_lower: "list_all is_lower_hex (digest_hex d)"
  by (auto simp: digest_hex_def list_all_iff dest!: hex_of_nat_digits intro: hex_digit_lower)

lemma digest_hex_no_comma: "0x2C \<notin> set (digest_hex d)"
  by (auto simp: digest_hex_def dest!: hex_of_nat_digits dest: hex_digit_not_comma)

lemma digest_hex_inj: "digest_hex d = digest_hex d' \<Longrightarrow> d = d'"
proof -
  assume "digest_hex d = digest_hex d'"
  then have "unat d mod 16 ^ 64 = unat d' mod 16 ^ 64"
    unfolding digest_hex_def by (rule hex_of_nat_inj)
  moreover have "unat d < 16 ^ 64" "unat d' < 16 ^ 64"
    using unsigned_less [of d] unsigned_less [of d'] by simp_all
  ultimately show ?thesis by (simp add: word_unat_eq_iff)
qed

lemma length_utf8_digest_hex: "length (utf8 (digest_hex d)) = 64"
  by (simp add: length_utf8_ascii digest_hex_ascii length_digest_hex)

lemma utf8_eq_digest_hex: "utf8 s = utf8 (digest_hex d) \<longleftrightarrow> s = digest_hex d"
  using utf8_eq_ascii [OF digest_hex_ascii] by blast

section \<open>Rounding to a double\<close>

lemma bit_length_upper: "n < 2 ^ bit_length n"
proof (induction n rule: bit_length.induct)
  case (1 n)
  show ?case
  proof (cases "n = 0")
    case True
    then show ?thesis by (subst bit_length.simps) simp
  next
    case False
    with 1 have "n div 2 < 2 ^ bit_length (n div 2)" by simp
    then have "n < 2 * 2 ^ bit_length (n div 2)" by linarith
    with False show ?thesis by (subst bit_length.simps) simp
  qed
qed

lemma bit_length_lower: "0 < n \<Longrightarrow> 2 ^ (bit_length n - 1) \<le> n"
proof (induction n rule: bit_length.induct)
  case (1 n)
  show ?case
  proof (cases "n div 2 = 0")
    case True
    with 1(2) have "n = 1" by linarith
    then show ?thesis by (simp add: bit_length.simps)
  next
    case False
    with 1 have ih: "2 ^ (bit_length (n div 2) - 1) \<le> n div 2" by simp
    from False have "0 < bit_length (n div 2)" by (subst bit_length.simps) simp
    then have "2 ^ bit_length (n div 2) = (2::nat) * 2 ^ (bit_length (n div 2) - 1)"
      by (cases "bit_length (n div 2)") simp_all
    with ih have "2 ^ bit_length (n div 2) \<le> n" by linarith
    with 1(2) show ?thesis by (subst bit_length.simps) simp
  qed
qed

lemma round53_power:
  assumes "53 \<le> k" and "2 ^ k \<le> m"
  shows "2 ^ k \<le> round53 m"
proof -
  define e where "e = bit_length m - 53"
  define q where "q = m div 2 ^ e"
  from assms(2) bit_length_upper [of m] have "(2::nat) ^ k < 2 ^ bit_length m" by linarith
  then have bl: "k < bit_length m"
    using power_less_imp_less_exp [of 2 k "bit_length m"] by simp
  with assms(1) have ble: "bit_length m - 1 = 52 + e" and ke: "k \<le> 52 + e"
    by (simp_all add: e_def)
  have "(2::nat) ^ 53 \<le> 2 ^ k" using assms(1) by (intro power_increasing) simp_all
  with assms(2) have m53: "\<not> m < 2 ^ 53" by linarith
  from assms(2) have "0 < m" by (cases "m = 0") simp_all
  from bit_length_lower [OF this] ble have "2 ^ (52 + e) \<le> m" by simp
  then have "2 ^ (52 + e) div 2 ^ e \<le> q" unfolding q_def by (rule div_le_mono)
  then have q: "2 ^ 52 \<le> q" by (simp add: power_add)
  have "(2::nat) ^ k \<le> 2 ^ (52 + e)" using ke by (intro power_increasing) simp_all
  also have "\<dots> = 2 ^ 52 * 2 ^ e" by (simp add: power_add)
  also have "\<dots> \<le> q * 2 ^ e" using q by simp
  finally have low: "2 ^ k \<le> q * 2 ^ e" .
  then have "2 ^ k \<le> (q + 1) * 2 ^ e" by simp
  with low m53 show ?thesis
    unfolding round53_def Let_def e_def [symmetric] q_def [symmetric] by simp
qed

lemma round53_large: "2 ^ 53 \<le> m \<Longrightarrow> 2 ^ 53 \<le> round53 m"
  by (rule round53_power) simp_all

lemma round53_pow53: "round53 (2 ^ 53) = 2 ^ 53"
  by (simp add: round53_def Let_def bit_length.simps)

lemma to_double_safe: "\<bar>n\<bar> \<le> 2 ^ 53 \<Longrightarrow> to_double n = Num n"
proof -
  assume a: "\<bar>n\<bar> \<le> 2 ^ 53"
  have r: "round53 (nat \<bar>n\<bar>) = nat \<bar>n\<bar>"
  proof (cases "\<bar>n\<bar> = 2 ^ 53")
    case True
    then have "nat \<bar>n\<bar> = 2 ^ 53" by simp
    then show ?thesis by (simp only: round53_pow53)
  next
    case False
    with a have "nat \<bar>n\<bar> < 2 ^ 53" by simp
    then show ?thesis by (simp add: round53_def)
  qed
  have "nat \<bar>n\<bar> \<le> 2 ^ 53" using a by simp
  also have "(2::nat) ^ 53 < 2 ^ 1024" by simp
  finally have "\<not> 2 ^ 1024 \<le> nat \<bar>n\<bar>" by simp
  then show ?thesis unfolding to_double_def r Let_def by auto
qed

lemma to_double_large:
  assumes "2 ^ 53 \<le> \<bar>n\<bar>"
  shows "(\<exists>y. to_double n = Num y \<and> 2 ^ 53 \<le> \<bar>y\<bar>) \<or> to_double n = PosInfinity
         \<or> to_double n = NegInfinity"
proof -
  from assms have "2 ^ 53 \<le> nat \<bar>n\<bar>" by simp
  then have "2 ^ 53 \<le> round53 (nat \<bar>n\<bar>)" by (rule round53_large)
  then have "(2::int) ^ 53 \<le> int (round53 (nat \<bar>n\<bar>))" by simp
  then show ?thesis unfolding to_double_def Let_def by auto
qed

lemma to_double_overflow:
  assumes "2 ^ 1024 \<le> \<bar>n\<bar>"
  shows "to_double n = (if n < 0 then NegInfinity else PosInfinity)"
proof -
  have "(2::nat) ^ 1024 \<le> nat \<bar>n\<bar>"
    using assms by (simp add: le_nat_iff)
  then have "2 ^ 1024 \<le> round53 (nat \<bar>n\<bar>)" by (rule round53_power [rotated]) simp
  then show ?thesis unfolding to_double_def Let_def by simp
qed

lemma to_double_nonneg:
  "0 \<le> n \<Longrightarrow> (\<exists>y. to_double n = Num y \<and> 0 \<le> y) \<or> to_double n = PosInfinity"
  unfolding to_double_def Let_def by auto

lemma outside_window_NaN: "outside_window now NaN tol = False"
  by (cases "to_double now") (simp_all add: outside_window_def)

lemma outside_window_safe:
  assumes "\<bar>now\<bar> \<le> 2 ^ 53" and "\<bar>tol\<bar> < 2 ^ 53"
  shows "outside_window now (Num ts) tol \<longleftrightarrow> tol < \<bar>now - ts\<bar>"
proof -
  have n: "to_double now = Num now" using assms(1) by (rule to_double_safe)
  have t: "to_double tol = Num tol" using assms(2) by (simp add: to_double_safe)
  show ?thesis
  proof (cases "\<bar>now - ts\<bar> \<le> 2 ^ 53")
    case True
    then show ?thesis by (simp add: outside_window_def n t to_double_safe)
  next
    case False
    then have big: "2 ^ 53 \<le> \<bar>now - ts\<bar>" by simp
    from False assms(2) have "tol < \<bar>now - ts\<bar>" by linarith
    moreover have "js_gt (js_abs (to_double (now - ts))) (Num tol)"
      using to_double_large [OF big] assms(2) by auto
    ultimately show ?thesis by (simp add: outside_window_def n t)
  qed
qed

lemma inside_window_same: "0 \<le> tol \<Longrightarrow> \<not> outside_window ts (to_double ts) tol"
proof -
  assume "0 \<le> tol"
  from to_double_nonneg [OF this] have "\<And>a. js_gt (Num 0) (to_double tol) = False"
    by auto
  moreover have "to_double 0 = Num 0" by (simp add: to_double_safe)
  ultimately show ?thesis
    by (cases "to_double ts") (simp_all add: outside_window_def)
qed

text \<open>Two roundings: \<open>2 ^ 53 + 1\<close> lies halfway between two doubles and goes to
  \<open>2 ^ 53\<close>; the difference \<open>1 - (- 2 ^ 53)\<close> does the same, so that it does not exceed a
  tolerance of \<open>2 ^ 53\<close>.\<close>

lemma to_double_tie: "to_double 9007199254740993 = Num 9007199254740992"
  by (simp add: to_double_def round53_def Let_def bit_length.simps)

lemma outside_window_tie:
  "outside_window 1 (Num (- 9007199254740992)) 9007199254740992 = False"
  by (simp add: outside_window_def to_double_def round53_def Let_def bit_length.simps)

section \<open>Decimal text and \<open>parseInt\<close>\<close>

lemma unat_digit: "k < 10 \<Longrightarrow> unat (of_nat (48 + k) :: code_unit) = 48 + k"
  by (simp only: unat_code_unit_of_nat)

lemma digit_is_digit: "k < 10 \<Longrightarrow> is_digit (of_nat (48 + k))"
  unfolding is_digit_def word_le_nat_alt by (simp only: unat_digit) simp

lemma digit_digit_value:
  assumes "k < 10" shows "digit_value (of_nat (48 + k)) = int k"
proof -
  have "uint (of_nat (48 + k) :: code_unit) = int (unat (of_nat (48 + k) :: code_unit))"
    by (rule uint_nat)
  also have "\<dots> = int (48 + k)" using assms by (simp only: unat_digit)
  finally show ?thesis unfolding digit_value_def by simp
qed

lemma is_digit_not_space: "is_digit u \<Longrightarrow> \<not> is_white_space u"
  by (auto simp: is_digit_def is_white_space_def word_le_nat_alt)

lemma is_digit_not_sign: "is_digit u \<Longrightarrow> u \<noteq> 0x2D \<and> u \<noteq> 0x2B \<and> u \<noteq> 0x2C"
  by (auto simp: is_digit_def)

lemma digits_all: "list_all is_digit (digits n)"
proof (induction n rule: digits.induct)
  case (1 n)
  show ?case
  proof (cases "n < 10")
    case True
    then show ?thesis by (subst digits.simps) (simp add: digit_is_digit del: of_nat_add)
  next
    case False
    have "n mod 10 < 10" by simp
    then have "is_digit (of_nat (48 + n mod 10))" by (rule digit_is_digit)
    with False 1 show ?thesis by (subst digits.simps) (simp del: of_nat_add)
  qed
qed

lemma digits_not_Nil: "digits n \<noteq> []"
  by (subst digits.simps) simp

lemma digits_value_snoc: "digits_value (z @ [u]) = 10 * digits_value z + digit_value u"
  by (simp add: digits_value_def)

lemma digits_value_digits: "digits_value (digits n) = int n"
proof (induction n rule: digits.induct)
  case (1 n)
  show ?case
  proof (cases "n < 10")
    case True
    then show ?thesis
      by (subst digits.simps) (simp add: digits_value_def digit_digit_value del: of_nat_add)
  next
    case False
    have "digit_value (of_nat (48 + n mod 10)) = int (n mod 10)"
      by (rule digit_digit_value) simp
    with False 1 show ?thesis
      by (subst digits.simps) (simp add: digits_value_snoc zdiv_int zmod_int del: of_nat_add)
  qed
qed

lemma parseInt10_digits: "parseInt10 (digits n) = to_double (int n)"
proof -
  obtain d ds where ds: "digits n = d # ds" using digits_not_Nil [of n] by (cases "digits n") auto
  with digits_all [of n] have d: "is_digit d" by simp
  have dw: "dropWhile is_white_space (digits n) = digits n"
    using ds is_digit_not_space [OF d] by simp
  have tw: "takeWhile is_digit (digits n) = digits n"
    using digits_all [of n] by (simp add: takeWhile_eq_all_conv list_all_iff)
  have hd: "hd (digits n) \<noteq> 0x2D" "hd (digits n) \<noteq> 0x2B"
    using ds is_digit_not_sign [OF d] by simp_all
  show ?thesis
    by (simp add: parseInt10_def Let_def dw tw hd digits_not_Nil digits_value_digits)
qed

text \<open>A digit string that writes \<open>2 ^ 1024\<close> or more is read as \<open>Infinity\<close>.\<close>

lemma parseInt10_overflow: "2 ^ 1024 \<le> n \<Longrightarrow> parseInt10 (digits n) = PosInfinity"
  by (simp add: parseInt10_digits to_double_overflow)

lemma parseInt10_minus_digits: "parseInt10 (0x2D # digits n) = to_double (- int n)"
proof -
  have tw: "takeWhile is_digit (digits n) = digits n"
    using digits_all [of n] by (simp add: takeWhile_eq_all_conv list_all_iff)
  show ?thesis
    by (simp add: parseInt10_def Let_def tw digits_not_Nil digits_value_digits is_white_space_def)
qed

lemma parseInt10_decimal: "parseInt10 (decimal i) = to_double i"
  by (simp add: decimal_def parseInt10_digits parseInt10_minus_digits)

lemma decimal_not_Nil: "decimal i \<noteq> []"
  by (simp add: decimal_def digits_not_Nil)

lemma decimal_no_comma: "0x2C \<notin> set (decimal i)"
  using digits_all [of "nat i"] digits_all [of "nat (- i)"]
  by (auto simp: decimal_def list_all_iff dest: is_digit_not_sign)

section \<open>The fields of a header\<close>

lemma split_header:
  assumes "0x2C \<notin> set t" "0x2C \<notin> set s"
  shows "split 0x2C (str ''t='' @ t @ str '',v1='' @ s) = [str ''t='' @ t, str ''v1='' @ s]"
proof -
  have eq: "str ''t='' @ t @ str '',v1='' @ s = (str ''t='' @ t) @ 0x2C # (str ''v1='' @ s)"
    by (simp add: str_def)
  have a: "0x2C \<notin> set (str ''t='' @ t)" and b: "0x2C \<notin> set (str ''v1='' @ s)"
    using assms by (simp_all add: str_def)
  show ?thesis
    by (simp only: eq split_append_sep [OF a] split_no_sep [OF b])
qed

lemma timestamp_field_header:
  "0x2C \<notin> set t \<Longrightarrow> 0x2C \<notin> set s \<Longrightarrow> timestamp_field (str ''t='' @ t @ str '',v1='' @ s) = Some t"
  by (simp add: timestamp_field_def split_header startsWith_def) (simp add: str_def)

lemma sig_field_header:
  "0x2C \<notin> set t \<Longrightarrow> 0x2C \<notin> set s \<Longrightarrow> sig_field (str ''t='' @ t @ str '',v1='' @ s) = Some s"
  by (simp add: sig_field_def split_header startsWith_def) (simp add: str_def)

lemma verify_fields:
  assumes "timestamp_field signature = Some t" "sig_field signature = Some s"
  shows "verifyWebhookSignature hmac now payload signature secret tol =
     (if t = [] \<or> s = [] then Inr False
      else if outside_window now (parseInt10 t) tol then Inr False
      else if length (utf8 s) \<noteq> 64 then Inl RangeError
      else Inr (s = digest_hex (hmac (utf8 secret) (utf8 (t @ str ''.'' @ payload)))))"
  using assms
  by (simp add: verifyWebhookSignature_def timingSafeEqual_def length_utf8_digest_hex
      utf8_eq_digest_hex)

lemma verify_no_timestamp:
  "timestamp_field signature = None \<Longrightarrow> verifyWebhookSignature hmac now payload signature secret tol = Inr False"
  by (simp add: verifyWebhookSignature_def)

lemma verify_no_sig:
  "sig_field signature = None \<Longrightarrow> verifyWebhookSignature hmac now payload signature secret tol = Inr False"
  by (simp add: verifyWebhookSignature_def split: option.splits)

text \<open>The routine raises exactly when both fields are found and not empty, the window
  check lets the header through, and the \<open>v1\<close> field is not 64 bytes long.\<close>

lemma verify_raises_iff:
  "verifyWebhookSignature hmac now payload signature secret tol = Inl RangeError \<longleftrightarrow>
     (\<exists>t s. timestamp_field signature = Some t \<and> sig_field signature = Some s \<and>
            t \<noteq> [] \<and> s \<noteq> [] \<and> \<not> outside_window now (parseInt10 t) tol \<and>
            length (utf8 s) \<noteq> 64)"
proof (cases "timestamp_field signature")
  case None
  then show ?thesis by (simp add: verify_no_timestamp)
next
  case t: (Some t)
  show ?thesis
  proof (cases "sig_field signature")
    case None
    then show ?thesis by (simp add: verify_no_sig)
  next
    case (Some s)
    show ?thesis unfolding verify_fields [OF t Some] using t Some by auto
  qed
qed


lemma signed_header_fields:
  "timestamp_field (signed_header hmac secret payload ts) = Some (decimal ts)"
  "sig_field (signed_header hmac secret payload ts) =
     Some (digest_hex (hmac (utf8 secret) (utf8 (decimal ts @ str ''.'' @ payload))))"
  unfolding signed_header_def
  by (simp_all only: timestamp_field_header sig_field_header decimal_no_comma digest_hex_no_comma
      not_False_eq_True)

lemma digest_hex_not_Nil: "digest_hex d \<noteq> []"
  using length_digest_hex [of d] by auto

lemma find_filter: "find P xs = (case filter P xs of [] \<Rightarrow> None | x # _ \<Rightarrow> Some x)"
  by (induction xs) auto

lemma find_perm_unique:
  assumes "mset ys = mset xs" and "length (filter P xs) \<le> 1"
  shows "find P ys = find P xs"
proof -
  from assms(1) have m: "mset (filter P ys) = mset (filter P xs)" by simp
  then have "length (filter P ys) = length (filter P xs)" by (rule mset_eq_length)
  with assms(2) m have "filter P ys = filter P xs"
    by (cases "filter P xs"; cases "filter P ys") auto
  then show ?thesis by (simp add: find_filter)
qed

lemma find_first:
  assumes "i < length xs" "P (xs ! i)" "\<forall>k<i. \<not> P (xs ! k)"
  shows "find P xs = Some (xs ! i)"
  using assms by (auto simp: find_Some_iff)

lemma startsWith_drop: "startsWith p k \<Longrightarrow> p = k @ drop (length k) p"
  unfolding startsWith_def by (metis append_take_drop_id)

lemma length_t_eq: "length (str ''t='') = 2"
  by (simp add: str_def)

lemma length_v1_eq: "length (str ''v1='') = 3"
  by (simp add: str_def)

section \<open>Evaluation on concrete text\<close>

lemma hex_of_nat_numeral:
  "hex_of_nat (numeral k) v = hex_of_nat (pred_numeral k) (v div 16) @ [hex_digit (v mod 16)]"
proof -
  have "hex_of_nat (Suc (pred_numeral k)) v
        = hex_of_nat (pred_numeral k) (v div 16) @ [hex_digit (v mod 16)]"
    by (rule hex_of_nat.simps)
  then show ?thesis by (simp only: numeral_eq_Suc [of k, symmetric])
qed

lemmas eval_fields = timestamp_field_def sig_field_def startsWith_def str_def

lemmas eval_parseInt = parseInt10_def str_def is_white_space_def is_digit_def digits_value_def
  digit_value_def Let_def to_double_def round53_def bit_length.simps

lemmas eval_digest_hex = digest_hex_def hex_of_nat_numeral hex_digit_def str_def

text \<open>HMAC-SHA256 of the test vector of RFC 4231 (test case 2), and of the messages of the
  deliveries below, all under the key \<open>whsec_test\<close>.\<close>

lemma hmac_rfc4231:
  "hmac_sha256 (utf8 (str ''Jefe'')) (utf8 (str ''what do ya want for nothing?''))
   = 0x5bdcc146bf60754e6a042426089575c75a003f089d2739839dec58b964ec3843"
  by code_simp

lemma hmac_scenario:
  \<open>hmac_sha256 (utf8 scenario_secret) (utf8 (str ''1700000000.{"event":"invocation"}''))
   = 0x909034ad1e37b4d1208f241a46e21394379560ced0e65e0ae9d7108b804bb9b3\<close>
  by code_simp

lemma hmac_abc:
  \<open>hmac_sha256 (utf8 scenario_secret) (utf8 (str ''abc.{"event":"invocation"}''))
   = 0x70b5b76b872475780440d449ba36d6a09ea9612b5020e1b67caf0763dfa407a0\<close>
  by code_simp

lemma hmac_leading_zero:
  \<open>hmac_sha256 (utf8 scenario_secret) (utf8 (str ''01700000000.{"event":"invocation"}''))
   = 0xee7ef9320c342185ab8165b977d2aeb324d04bcf7a7b6bedf3525030072c832d\<close>
  by code_simp

lemma hmac_tampered:
  \<open>hmac_sha256 (utf8 scenario_secret) (utf8 (str ''1700000000.{"event":"invocatioN"}''))
   = 0xac374e9749b43012293c088bf87b0b262d47f48096d4341c493e61e0ab66a28a\<close>
  by code_simp


text \<open>The scenario's header is the one the sender builds, and it verifies inside the
  window.\<close>

lemma decimal_scenario: "decimal 1700000000 = str ''1700000000''"
  by (simp add: decimal_def digits.simps str_def)

lemma parseInt10_scenario: "parseInt10 (str ''1700000000'') = Num 1700000000"
  by (simp add: eval_parseInt)

lemma scenario_fields:
  "timestamp_field scenario_header = Some (str ''1700000000'')"
  "sig_field scenario_header =
     Some (str ''909034ad1e37b4d1208f241a46e21394379560ced0e65e0ae9d7108b804bb9b3'')"
  by (simp_all add: scenario_header_def eval_fields)

lemma digest_hex_scenario:
  "digest_hex 0x909034ad1e37b4d1208f241a46e21394379560ced0e65e0ae9d7108b804bb9b3
   = str ''909034ad1e37b4d1208f241a46e21394379560ced0e65e0ae9d7108b804bb9b3''"
  by (simp add: eval_digest_hex)

lemma expected_scenario:
  "digest_hex (hmac_sha256 (utf8 scenario_secret)
     (utf8 (str ''1700000000'' @ str ''.'' @ scenario_payload)))
   = str ''909034ad1e37b4d1208f241a46e21394379560ced0e65e0ae9d7108b804bb9b3''"
proof -
  have \<open>str ''1700000000'' @ str ''.'' @ scenario_payload
        = str ''1700000000.{"event":"invocation"}''\<close>
    by (simp add: scenario_payload_def str_def)
  then show ?thesis by (simp only: hmac_scenario digest_hex_scenario)
qed

lemma signed_header_scenario:
  "signed_header hmac_sha256 scenario_secret scenario_payload 1700000000 = scenario_header"
  unfolding signed_header_def decimal_scenario expected_scenario scenario_header_def
  by (simp add: str_def)

lemma verify_scenario:
  "\<bar>now\<bar> \<le> 2 ^ 53 \<Longrightarrow> \<bar>tol\<bar> < 2 ^ 53 \<Longrightarrow> \<bar>now - 1700000000\<bar> \<le> tol \<Longrightarrow>
   verifyWebhookSignature hmac_sha256 now scenario_payload scenario_header scenario_secret tol
   = Inr True"
  by (simp add: verify_fields [OF scenario_fields] parseInt10_scenario expected_scenario
      outside_window_safe)
     (simp add: str_def)

section \<open>The claims\<close>

subsection \<open>C1: a signature field of the wrong length\<close>

text \<open>
  Claim C1 says that \<open>verifyWebhookSignature\<close> returns a boolean on every input and never
  raises a fault, and that a \<open>v1\<close> field whose length differs from that of the computed
  digest makes it return \<open>false\<close>.  The code hands both buffers to
  \<open>crypto.timingSafeEqual\<close> without comparing their lengths first: on the scenario's
  delivery with the header \<open>t=1700000000,v1=deadbeef\<close>, inside the window, the call raises
  a \<open>RangeError\<close> instead of returning \<open>false\<close>.
\<close>

theorem wrong_length_signature_raises:
  "verifyWebhookSignature hmac_sha256 1700000000 scenario_payload
     (str ''t=1700000000,v1=deadbeef'') scenario_secret 300 = Inl RangeError"
proof -
  have t: "timestamp_field (str ''t=1700000000,v1=deadbeef'') = Some (str ''1700000000'')"
    and s: "sig_field (str ''t=1700000000,v1=deadbeef'') = Some (str ''deadbeef'')"
    by (simp_all add: eval_fields)
  show ?thesis
    by (simp add: verify_fields [OF t s] parseInt10_scenario outside_window_safe)
       (simp add: str_def)
qed

subsection \<open>C2: a timestamp that is not a number\<close>

text \<open>
  Claim C2 says that a header whose \<open>t=\<close> field is not a base-10 integer, such as
  \<open>t=abc\<close>, makes \<open>verifyWebhookSignature\<close> return \<open>false\<close>, even when the \<open>v1\<close> digest is a
  correct HMAC over the literal field text.  In the code \<open>parseInt\<close> yields \<open>NaN\<close>, the
  comparison \<open>Math.abs(now - NaN) > toleranceSeconds\<close> is false, and the window check lets
  the header through: with the digest of \<open>abc.{"event":"invocation"}\<close> the call returns
  \<open>true\<close>.
\<close>

theorem non_numeric_timestamp_accepted:
  "verifyWebhookSignature hmac_sha256 1700000000 scenario_payload
     (str ''t=abc,v1=70b5b76b872475780440d449ba36d6a09ea9612b5020e1b67caf0763dfa407a0'')
     scenario_secret 300 = Inr True"
proof -
  let ?h = "str ''t=abc,v1=70b5b76b872475780440d449ba36d6a09ea9612b5020e1b67caf0763dfa407a0''"
  have t: "timestamp_field ?h = Some (str ''abc'')"
    and s: "sig_field ?h
            = Some (str ''70b5b76b872475780440d449ba36d6a09ea9612b5020e1b67caf0763dfa407a0'')"
    by (simp_all add: eval_fields)
  have nan: "parseInt10 (str ''abc'') = NaN"
    by (simp add: eval_parseInt)
  have \<open>str ''abc'' @ str ''.'' @ scenario_payload = str ''abc.{"event":"invocation"}''\<close>
    by (simp add: scenario_payload_def str_def)
  moreover have "digest_hex 0x70b5b76b872475780440d449ba36d6a09ea9612b5020e1b67caf0763dfa407a0
      = str ''70b5b76b872475780440d449ba36d6a09ea9612b5020e1b67caf0763dfa407a0''"
    by (simp add: eval_digest_hex)
  ultimately have e: "digest_hex (hmac_sha256 (utf8 scenario_secret)
        (utf8 (str ''abc'' @ str ''.'' @ scenario_payload)))
      = str ''70b5b76b872475780440d449ba36d6a09ea9612b5020e1b67caf0763dfa407a0''"
    by (simp only: hmac_abc)
  show ?thesis
    by (simp add: verify_fields [OF t s] nan outside_window_NaN e) (simp add: str_def)
qed

subsection \<open>C3: the boundary of the replay window\<close>



subsection \<open>C4: a correctly constructed signature verifies\<close>

text \<open>
  Claim C4: for every payload and secret, the header \<open>t=<ts>,v1=<digest>\<close> with the digest
  the lowercase hexadecimal HMAC-SHA256 of \<open><ts>.<payload>\<close> under the secret makes
  \<open>verifyWebhookSignature\<close> return \<open>true\<close> when the clock is at \<open>ts\<close> and the tolerance is
  not negative.  It holds for every function in the place of the HMAC.
\<close>

theorem correct_signature_verifies:
  "0 \<le> tol \<Longrightarrow>
   verifyWebhookSignature hmac ts payload (signed_header hmac secret payload ts) secret tol
   = Inr True"
  by (simp add: verify_fields [OF signed_header_fields] decimal_not_Nil digest_hex_not_Nil
      parseInt10_decimal inside_window_same length_utf8_digest_hex)

theorem correct_signature_verifies_witness:
  "(0 :: int) \<le> 300
   \<and> signed_header hmac_sha256 scenario_secret scenario_payload 1700000000 = scenario_header
   \<and> verifyWebhookSignature hmac_sha256 1700000000 scenario_payload scenario_header
       scenario_secret 300 = Inr True"
  using correct_signature_verifies [of 300 hmac_sha256 1700000000 scenario_payload scenario_secret]
  by (simp add: signed_header_scenario)

subsection \<open>C5: what the expected digest is computed over\<close>

text \<open>
  Claim C5: the expected digest is the HMAC-SHA256, keyed by the secret, of the raw text of
  the timestamp field as it stands in the header, a single \<open>.\<close> and the payload, rendered
  as lowercase hexadecimal; the parsed integer plays no part in it.  So the call returns
  \<open>true\<close> exactly when the first \<open>t=\<close> field is present, not empty and inside the window,
  and the \<open>v1\<close> field is that rendering; the rendering has 64 digits, all in \<open>0-9a-f\<close>.
\<close>

theorem expected_digest_over_raw_timestamp:
  "(verifyWebhookSignature hmac now payload signature secret tol = Inr True \<longleftrightarrow>
      (\<exists>t. timestamp_field signature = Some t \<and> t \<noteq> [] \<and>
           \<not> outside_window now (parseInt10 t) tol \<and>
           sig_field signature =
             Some (digest_hex (hmac (utf8 secret) (utf8 (t @ str ''.'' @ payload))))))
   \<and> length (digest_hex d) = 64 \<and> list_all is_lower_hex (digest_hex d)"
proof -
  have "verifyWebhookSignature hmac now payload signature secret tol = Inr True \<longleftrightarrow>
      (\<exists>t. timestamp_field signature = Some t \<and> t \<noteq> [] \<and>
           \<not> outside_window now (parseInt10 t) tol \<and>
           sig_field signature =
             Some (digest_hex (hmac (utf8 secret) (utf8 (t @ str ''.'' @ payload)))))"
  proof (cases "timestamp_field signature")
    case None
    then show ?thesis by (simp add: verify_no_timestamp)
  next
    case t: (Some t)
    show ?thesis
    proof (cases "sig_field signature")
      case None
      then show ?thesis by (simp add: verify_no_sig)
    next
      case (Some s)
      show ?thesis
        unfolding verify_fields [OF t Some] using t Some
        by (auto simp: digest_hex_not_Nil digest_hex_not_Nil [symmetric] length_utf8_digest_hex)
    qed
  qed
  then show ?thesis by (simp add: length_digest_hex digest_hex_lower)
qed

text \<open>A header with the timestamp written \<open>01700000000\<close> verifies with the digest of
  \<open>01700000000.{"event":"invocation"}\<close>, the text as received; with the digest of
  \<open>1700000000.{"event":"invocation"}\<close>, the parsed integer written back, it does not.\<close>

theorem expected_digest_over_raw_timestamp_witness:
  "verifyWebhookSignature hmac_sha256 1700000000 scenario_payload
     (str ''t=01700000000,v1=ee7ef9320c342185ab8165b977d2aeb324d04bcf7a7b6bedf3525030072c832d'')
     scenario_secret 300 = Inr True
   \<and> verifyWebhookSignature hmac_sha256 1700000000 scenario_payload
     (str ''t=01700000000,v1=909034ad1e37b4d1208f241a46e21394379560ced0e65e0ae9d7108b804bb9b3'')
     scenario_secret 300 = Inr False"
proof -
  let ?h = "str ''t=01700000000,v1=ee7ef9320c342185ab8165b977d2aeb324d04bcf7a7b6bedf3525030072c832d''"
  let ?g = "str ''t=01700000000,v1=909034ad1e37b4d1208f241a46e21394379560ced0e65e0ae9d7108b804bb9b3''"
  have th: "timestamp_field ?h = Some (str ''01700000000'')"
    and sh: "sig_field ?h
             = Some (str ''ee7ef9320c342185ab8165b977d2aeb324d04bcf7a7b6bedf3525030072c832d'')"
    and tg: "timestamp_field ?g = Some (str ''01700000000'')"
    and sg: "sig_field ?g
             = Some (str ''909034ad1e37b4d1208f241a46e21394379560ced0e65e0ae9d7108b804bb9b3'')"
    by (simp_all add: eval_fields)
  have p: "parseInt10 (str ''01700000000'') = Num 1700000000"
    by (simp add: eval_parseInt)
  have \<open>str ''01700000000'' @ str ''.'' @ scenario_payload
        = str ''01700000000.{"event":"invocation"}''\<close>
    by (simp add: scenario_payload_def str_def)
  moreover have "digest_hex 0xee7ef9320c342185ab8165b977d2aeb324d04bcf7a7b6bedf3525030072c832d
      = str ''ee7ef9320c342185ab8165b977d2aeb324d04bcf7a7b6bedf3525030072c832d''"
    by (simp add: eval_digest_hex)
  ultimately have e: "digest_hex (hmac_sha256 (utf8 scenario_secret)
        (utf8 (str ''01700000000'' @ str ''.'' @ scenario_payload)))
      = str ''ee7ef9320c342185ab8165b977d2aeb324d04bcf7a7b6bedf3525030072c832d''"
    by (simp only: hmac_leading_zero)
  have ne: "str ''909034ad1e37b4d1208f241a46e21394379560ced0e65e0ae9d7108b804bb9b3''
      \<noteq> str ''ee7ef9320c342185ab8165b977d2aeb324d04bcf7a7b6bedf3525030072c832d''"
    by (simp add: str_def)
  have nz: "str ''01700000000'' \<noteq> []"
    by (simp add: str_def)
  have w: "\<not> outside_window 1700000000 (Num 1700000000) 300"
    by (simp add: outside_window_safe)
  have "verifyWebhookSignature hmac_sha256 1700000000 scenario_payload ?g scenario_secret 300
      = Inr False"
    by (simp add: verify_fields [OF tg sg] p w e ne) (simp add: str_def)
  then show ?thesis
    using
      expected_digest_over_raw_timestamp
        [of hmac_sha256 1700000000 scenario_payload ?h scenario_secret 300 0]
    by (simp add: th sh p w e nz)
qed

subsection \<open>C6: a missing field\<close>

text \<open>
  Claim C6: when no comma-separated field of the header begins with \<open>t=\<close>, or none begins
  with \<open>v1=\<close>, \<open>verifyWebhookSignature\<close> returns \<open>false\<close>, for every payload, secret,
  tolerance and clock; no digest is compared, so no fault can arise and the HMAC plays no
  part.
\<close>

theorem missing_field_returns_false:
  assumes "(\<forall>p\<in>set (split 0x2C signature). \<not> startsWith p (str ''t=''))
         \<or> (\<forall>p\<in>set (split 0x2C signature). \<not> startsWith p (str ''v1=''))"
  shows "verifyWebhookSignature hmac now payload signature secret tol = Inr False"
proof -
  from assms have "timestamp_field signature = None \<or> sig_field signature = None"
    by (auto simp: timestamp_field_def sig_field_def find_None_iff)
  then show ?thesis by (auto simp: verify_no_timestamp verify_no_sig)
qed

text \<open>The scenario's header with the \<open>t=\<close> field removed, and with the \<open>v1=\<close> field
  removed.\<close>

theorem missing_field_returns_false_witness:
  "verifyWebhookSignature hmac_sha256 1700000000 scenario_payload
     (str ''v1=909034ad1e37b4d1208f241a46e21394379560ced0e65e0ae9d7108b804bb9b3'')
     scenario_secret 300 = Inr False
   \<and> verifyWebhookSignature hmac_sha256 1700000000 scenario_payload
     (str ''t=1700000000'') scenario_secret 300 = Inr False"
  using
    missing_field_returns_false [of
      "str ''v1=909034ad1e37b4d1208f241a46e21394379560ced0e65e0ae9d7108b804bb9b3''"
      hmac_sha256 1700000000 scenario_payload scenario_secret 300]
    missing_field_returns_false [of "str ''t=1700000000''"
      hmac_sha256 1700000000 scenario_payload scenario_secret 300]
  by (simp add: startsWith_def str_def)

subsection \<open>C7: the order of the fields\<close>

text \<open>
  Claim C7: the fields are found by key, not by position.  When the fields of one header
  are a permutation of the fields of another, and at most one field begins with \<open>t=\<close> and at
  most one with \<open>v1=\<close>, \<open>verifyWebhookSignature\<close> gives the same result on both, for every
  payload, secret, tolerance and clock.
\<close>

theorem field_order_irrelevant:
  assumes "mset (split 0x2C signature') = mset (split 0x2C signature)"
      and "length (filter (\<lambda>p. startsWith p (str ''t='')) (split 0x2C signature)) \<le> 1"
      and "length (filter (\<lambda>p. startsWith p (str ''v1='')) (split 0x2C signature)) \<le> 1"
  shows "verifyWebhookSignature hmac now payload signature' secret tol =
         verifyWebhookSignature hmac now payload signature secret tol"
proof -
  have tf: "timestamp_field signature' = timestamp_field signature"
    unfolding timestamp_field_def by (simp only: find_perm_unique [OF assms(1) assms(2)])
  have sf: "sig_field signature' = sig_field signature"
    unfolding sig_field_def by (simp only: find_perm_unique [OF assms(1) assms(3)])
  show ?thesis unfolding verifyWebhookSignature_def tf sf by (rule refl)
qed

text \<open>The scenario's header with its two fields swapped verifies as well.\<close>

theorem field_order_irrelevant_witness:
  "verifyWebhookSignature hmac_sha256 1700000000 scenario_payload
     (str ''v1=909034ad1e37b4d1208f241a46e21394379560ced0e65e0ae9d7108b804bb9b3,t=1700000000'')
     scenario_secret 300 = Inr True"
proof -
  let ?g = "str ''v1=909034ad1e37b4d1208f241a46e21394379560ced0e65e0ae9d7108b804bb9b3,t=1700000000''"
  have g: "split 0x2C ?g =
      [str ''v1=909034ad1e37b4d1208f241a46e21394379560ced0e65e0ae9d7108b804bb9b3'',
       str ''t=1700000000'']"
    by (simp add: str_def)
  have h: "split 0x2C scenario_header =
      [str ''t=1700000000'',
       str ''v1=909034ad1e37b4d1208f241a46e21394379560ced0e65e0ae9d7108b804bb9b3'']"
    by (simp add: scenario_header_def str_def)
  have "mset (split 0x2C ?g) = mset (split 0x2C scenario_header)"
    unfolding g h by simp
  moreover have
    "length (filter (\<lambda>p. startsWith p (str ''t='')) (split 0x2C scenario_header)) \<le> 1"
    "length (filter (\<lambda>p. startsWith p (str ''v1='')) (split 0x2C scenario_header)) \<le> 1"
    unfolding h by (simp_all add: startsWith_def str_def)
  ultimately show ?thesis
    using field_order_irrelevant [of ?g scenario_header hmac_sha256 1700000000
        scenario_payload scenario_secret 300]
    by (simp add: verify_scenario)
qed

subsection \<open>C8: a payload changed after signing\<close>

text \<open>
  Claim C8 says that changing any single byte of a signed payload makes
  \<open>verifyWebhookSignature\<close> return \<open>false\<close>.  What the routine does with a header signed over a
  payload \<open>p\<close> and a call on a payload \<open>p'\<close>, inside the window, is to compare two digests:
  it returns \<open>false\<close> when the HMAC of \<open><ts>.<p'>\<close> differs from the HMAC of \<open><ts>.<p>\<close>, and
  \<open>true\<close> when they are equal, without a fault.  That two payloads one byte apart never
  have the same HMAC-SHA256 is a property of the hash function, a digest of 256 bits for
  messages of any length; it is neither proved nor refuted here, and the claim is left
  open.
\<close>

lemma payload_change_detected_by_digest:
  assumes "\<not> outside_window now (to_double ts) tol"
  shows "verifyWebhookSignature hmac now p' (signed_header hmac secret p ts) secret tol
         = Inr (hmac (utf8 secret) (utf8 (decimal ts @ str ''.'' @ p'))
                = hmac (utf8 secret) (utf8 (decimal ts @ str ''.'' @ p)))"
  using assms
  by (auto simp: verify_fields [OF signed_header_fields] decimal_not_Nil digest_hex_not_Nil
      parseInt10_decimal length_utf8_digest_hex dest: digest_hex_inj)

text \<open>The scenario's payload with its last letter changed to \<open>N\<close> is rejected.\<close>

lemma tampered_payload_rejected:
  \<open>verifyWebhookSignature hmac_sha256 1700000000 (str ''{"event":"invocatioN"}'')
     scenario_header scenario_secret 300 = Inr False\<close>
proof -
  have \<open>decimal 1700000000 @ str ''.'' @ str ''{"event":"invocatioN"}''
        = str ''1700000000.{"event":"invocatioN"}''\<close>
    \<open>decimal 1700000000 @ str ''.'' @ scenario_payload
        = str ''1700000000.{"event":"invocation"}''\<close>
    by (simp_all add: decimal_scenario scenario_payload_def str_def)
  moreover have "\<not> outside_window 1700000000 (to_double 1700000000) 300"
    by (simp add: inside_window_same)
  ultimately show ?thesis
    using payload_change_detected_by_digest [of 1700000000 1700000000 300 hmac_sha256
        \<open>str ''{"event":"invocatioN"}''\<close> scenario_secret scenario_payload]
    by (simp add: signed_header_scenario hmac_tampered hmac_scenario)
qed

subsection \<open>C9: the time the comparison takes\<close>

text \<open>
  Claim C9 is about execution time: the comparison must not stop at the first byte that
  differs.  The routine delegates the comparison to \<open>crypto.timingSafeEqual\<close>; the model
  above gives the value that call returns or the fault it throws, and says nothing of how
  long it runs.  The claim has no counterpart here.
\<close>

subsection \<open>C10: repeated fields\<close>

text \<open>
  Claim C10: when several comma-separated fields of the header begin with \<open>t=\<close>, or several
  with \<open>v1=\<close>, \<open>verifyWebhookSignature\<close> uses the first of each in left-to-right order, for
  the window check and for the digest, and ignores the rest: the result is the one for the
  header made of these two fields alone.
\<close>

theorem first_field_wins:
  assumes "split 0x2C signature = parts"
      and "i < length parts" "startsWith (parts ! i) (str ''t='')"
          "\<forall>k<i. \<not> startsWith (parts ! k) (str ''t='')"
      and "j < length parts" "startsWith (parts ! j) (str ''v1='')"
          "\<forall>k<j. \<not> startsWith (parts ! k) (str ''v1='')"
  shows "verifyWebhookSignature hmac now payload signature secret tol =
         verifyWebhookSignature hmac now payload (parts ! i @ [0x2C] @ parts ! j) secret tol"
proof -
  have ti: "timestamp_field signature = Some (drop 2 (parts ! i))"
    using assms by (simp add: timestamp_field_def find_first)
  have sj: "sig_field signature = Some (drop 3 (parts ! j))"
    using assms by (simp add: sig_field_def find_first)
  have pi: "parts ! i = str ''t='' @ drop 2 (parts ! i)"
    using startsWith_drop [OF assms(3)] by (simp only: length_t_eq)
  have pj: "parts ! j = str ''v1='' @ drop 3 (parts ! j)"
    using startsWith_drop [OF assms(6)] by (simp only: length_v1_eq)
  have "parts ! i \<in> set (split 0x2C signature)" "parts ! j \<in> set (split 0x2C signature)"
    using assms by auto
  then have "0x2C \<notin> set (parts ! i)" "0x2C \<notin> set (parts ! j)"
    by (auto dest: split_parts_no_sep)
  then have nc: "0x2C \<notin> set (drop 2 (parts ! i))" "0x2C \<notin> set (drop 3 (parts ! j))"
    by (auto dest: in_set_dropD)
  have "parts ! i @ [0x2C] @ parts ! j
        = str ''t='' @ drop 2 (parts ! i) @ str '',v1='' @ drop 3 (parts ! j)"
    by (subst pi, subst pj) (simp add: str_def)
  then have "timestamp_field (parts ! i @ [0x2C] @ parts ! j) = Some (drop 2 (parts ! i))"
    and "sig_field (parts ! i @ [0x2C] @ parts ! j) = Some (drop 3 (parts ! j))"
    by (simp_all only: timestamp_field_header [OF nc] sig_field_header [OF nc])
  with ti sj show ?thesis unfolding verifyWebhookSignature_def by (simp only:)
qed

text \<open>The scenario's header followed by a stale \<open>t=1\<close> and a wrong \<open>v1=00\<close> verifies like the
  scenario's header; with \<open>t=1\<close> in front it is rejected like \<open>t=1,v1=...\<close>, outside the
  window.\<close>

theorem first_field_wins_witness:
  "verifyWebhookSignature hmac_sha256 1700000000 scenario_payload
     (str ''t=1700000000,v1=909034ad1e37b4d1208f241a46e21394379560ced0e65e0ae9d7108b804bb9b3,t=1,v1=00'')
     scenario_secret 300 = Inr True
   \<and> verifyWebhookSignature hmac_sha256 1700000000 scenario_payload
     (str ''t=1,t=1700000000,v1=909034ad1e37b4d1208f241a46e21394379560ced0e65e0ae9d7108b804bb9b3'')
     scenario_secret 300 = Inr False"
proof -
  let ?t = "str ''t=1700000000''"
  let ?v = "str ''v1=909034ad1e37b4d1208f241a46e21394379560ced0e65e0ae9d7108b804bb9b3''"
  let ?a = "str ''t=1700000000,v1=909034ad1e37b4d1208f241a46e21394379560ced0e65e0ae9d7108b804bb9b3,t=1,v1=00''"
  let ?b = "str ''t=1,t=1700000000,v1=909034ad1e37b4d1208f241a46e21394379560ced0e65e0ae9d7108b804bb9b3''"
  have a: "split 0x2C ?a = [?t, ?v, str ''t=1'', str ''v1=00'']"
    and b: "split 0x2C ?b = [str ''t=1'', ?t, ?v]"
    by (simp_all add: str_def)
  have h: "?t @ [0x2C] @ ?v = scenario_header"
    by (simp add: scenario_header_def str_def)
  have t1: "timestamp_field (str ''t=1'' @ [0x2C] @ ?v) = Some (str ''1'')"
    and s1: "sig_field (str ''t=1'' @ [0x2C] @ ?v)
             = Some (str ''909034ad1e37b4d1208f241a46e21394379560ced0e65e0ae9d7108b804bb9b3'')"
    by (simp_all add: eval_fields)
  have p1: "parseInt10 (str ''1'') = Num 1"
    by (simp add: eval_parseInt)
  have stale: "verifyWebhookSignature hmac_sha256 1700000000 scenario_payload
      (str ''t=1'' @ [0x2C] @ ?v) scenario_secret 300 = Inr False"
    by (subst verify_fields [OF t1 s1]) (simp add: p1 outside_window_safe)
  have fresh: "verifyWebhookSignature hmac_sha256 1700000000 scenario_payload
      (?t @ [0x2C] @ ?v) scenario_secret 300 = Inr True"
    unfolding h by (rule verify_scenario) simp_all
  have "verifyWebhookSignature hmac_sha256 1700000000 scenario_payload ?a scenario_secret 300
        = verifyWebhookSignature hmac_sha256 1700000000 scenario_payload
            ([?t, ?v, str ''t=1'', str ''v1=00''] ! 0 @ [0x2C]
               @ [?t, ?v, str ''t=1'', str ''v1=00''] ! 1) scenario_secret 300"
    by (rule first_field_wins [OF a]) (auto simp: startsWith_def str_def)
  then have "verifyWebhookSignature hmac_sha256 1700000000 scenario_payload ?a
      scenario_secret 300 = Inr True"
    using fresh by simp
  moreover
  have "verifyWebhookSignature hmac_sha256 1700000000 scenario_payload ?b scenario_secret 300
        = verifyWebhookSignature hmac_sha256 1700000000 scenario_payload
            ([str ''t=1'', ?t, ?v] ! 0 @ [0x2C] @ [str ''t=1'', ?t, ?v] ! 2) scenario_secret 300"
    by (rule first_field_wins [OF b])
       (auto simp: startsWith_def str_def less_Suc_eq numeral_2_eq_2)
  then have "verifyWebhookSignature hmac_sha256 1700000000 scenario_payload ?b
      scenario_secret 300 = Inr False"
    using stale by simp
  ultimately show ?thesis by (simp only: simp_thms)
qed

end
